theory Spec2Isabelle
  imports Complex_Main "HOL-Library.Sublist"
begin

section \<open>The turn engine of ts-turnbased (src/game.ts, src/errors.ts)\<close>

text \<open>
  The abstract class \<open>Game<O, M, PU, PR>\<close> is embedded as functions over a record of its
  fields. The abstract methods a subclass supplies are a second record, passed to every
  operation. An operation that can throw returns a pair: the thrown error (\<open>Inl\<close>) or the
  returned value (\<open>Inr\<close>), and the object as the call leaves it. Updates and moves are
  values: what a method returns is not shared with the fields of the subclass.
\<close>

subsection \<open>Data\<close>

type_synonym Player = int

text \<open>\<open>interface Update<PU, PR>\<close>; an optional field that is absent is \<open>None\<close>.\<close>

record ('pu, 'pr) Update =
  publicInfo :: 'pu
  toPlay :: "Player list"
  winners :: "Player list option"
  privateInfo :: "'pr list option"

text \<open>
  The values that reach a constructor parameter of an error class at run time, where the
  declared parameter types are not enforced: a missing argument is \<open>undefined\<close>.
\<close>

datatype 'm js_any = JUndefined | JNumber int | JString string | JObject 'm

text \<open>
  The classes of src/errors.ts, and the plain \<open>Error\<close> of JavaScript. Each class only builds
  its message from its constructor arguments, so an error is represented by its class and
  those arguments, in the order of the constructor's parameters:
  \<open>InvalidOptionsError(options, reason)\<close>, \<open>InvalidMoveError(move, reason)\<close>,
  \<open>IllegalMoveError(move, player, reason)\<close>, \<open>OutOfTurnError(move, player, reason)\<close>.
  The arguments of \<open>OutOfTurnError\<close> are kept as run-time values, since src/game.ts calls that
  constructor with two arguments, a number and a string.
\<close>

datatype ('o, 'm) error =
    Error string
  | InvalidOptionsError 'o string
  | InvalidMoveError 'm string
  | IllegalMoveError 'm Player string
  | OutOfTurnError "'m js_any" "'m js_any" "'m js_any"

fun is_OutOfTurnError :: "('o, 'm) error \<Rightarrow> bool" where
  "is_OutOfTurnError (OutOfTurnError mv pl rs) = True"
| "is_OutOfTurnError e = False"

text \<open>
  A JavaScript \<open>Map\<close> keeps its entries in insertion order, and \<open>forEach\<close> and \<open>keys\<close> show that
  order to the method that receives the map: it is a list of entries. \<open>set\<close> on a key that
  is present replaces the value in place, on a new key it appends the entry.
\<close>

type_synonym ('k, 'v) Map = "('k \<times> 'v) list"

definition Map_new :: "('k, 'v) Map" where
  "Map_new = []"

definition Map_has :: "('k, 'v) Map \<Rightarrow> 'k \<Rightarrow> bool" where
  "Map_has m k = (k \<in> fst ` set m)"

fun Map_set :: "('k, 'v) Map \<Rightarrow> 'k \<Rightarrow> 'v \<Rightarrow> ('k, 'v) Map" where
  "Map_set [] k v = [(k, v)]"
| "Map_set (p # ps) k v = (if fst p = k then (k, v) # ps else p # Map_set ps k v)"

definition Map_size :: "('k, 'v) Map \<Rightarrow> nat" where
  "Map_size m = length m"

text \<open>
  The fields of a \<open>Game\<close> object. \<open>subFields\<close> holds what the subclass adds: its own fields, which
  are all its methods can change (\<open>pendingMoves\<close> and \<open>updates\<close> are private to \<open>Game\<close>).
\<close>

record ('o, 'm, 'pu, 'pr, 'g) Game =
  pendingMoves :: "(Player, 'm) Map"
  updates :: "('pu, 'pr) Update list"
  options :: 'o
  numberOfPlayers :: real
  subFields :: 'g

text \<open>
  The abstract methods of \<open>Game\<close>, as a subclass implements them. \<open>sanitizeOptions\<close>,
  \<open>sanitizeMove\<close> and \<open>assertMoveIsLegal\<close> are the three whose comments document an exception;
  they and \<open>getWinners\<close> read the subclass's fields, \<open>initialize\<close> and \<open>processTurn\<close> also return
  them changed. \<open>subclassFields\<close> is the rest of the subclass's constructor: it runs after
  \<open>super(options)\<close> and sets the subclass's fields, with the sanitized \<open>this.options\<close> to read.
\<close>

record ('o, 'm, 'pu, 'pr, 'g) Subclass =
  numberOfPlayersForOptions :: "'o \<Rightarrow> real"
  sanitizeOptions :: "'o \<Rightarrow> ('o, 'm) error + 'o"
  subclassFields :: "'o \<Rightarrow> 'g"
  sanitizeMove :: "'g \<Rightarrow> 'm \<Rightarrow> ('o, 'm) error + 'm"
  assertMoveIsLegal :: "'g \<Rightarrow> 'm \<Rightarrow> Player \<Rightarrow> ('o, 'm) error + unit"
  initialize :: "'g \<Rightarrow> string \<Rightarrow> ('pu, 'pr) Update \<times> 'g"
  processTurn :: "'g \<Rightarrow> (Player, 'm) Map \<Rightarrow> ('pu, 'pr) Update \<times> 'g"
  getWinners :: "'g \<Rightarrow> Player list"

subsection \<open>Operations\<close>

text \<open>
  \<open>constructor(options)\<close>: \<open>this.options\<close> is the sanitized value, and
  \<open>numberOfPlayersForOptions\<close> is called on the constructor's parameter \<open>options\<close>.
  When \<open>sanitizeOptions\<close> throws, no object is made.
\<close>

definition Game_new ::
  "('o, 'm, 'pu, 'pr, 'g) Subclass \<Rightarrow> 'o \<Rightarrow> ('o, 'm) error + ('o, 'm, 'pu, 'pr, 'g) Game" where
  "Game_new G opts =
     (case sanitizeOptions G opts of
        Inl e \<Rightarrow> Inl e
      | Inr sane \<Rightarrow>
          Inr \<lparr> pendingMoves = Map_new,
                updates = [],
                options = sane,
                numberOfPlayers = numberOfPlayersForOptions G opts,
                subFields = subclassFields G sane \<rparr>)"

definition getAllUpdates :: "('o, 'm, 'pu, 'pr, 'g) Game \<Rightarrow> ('pu, 'pr) Update list" where
  "getAllUpdates s = updates s"

definition getLatestUpdate ::
  "('o, 'm, 'pu, 'pr, 'g) Game \<Rightarrow> ('o, 'm) error + ('pu, 'pr) Update" where
  "getLatestUpdate s =
     (if length (updates s) = 0 then Inl (Error ''Game hasn't started yet'')
      else Inr (updates s ! (length (updates s) - 1)))"

text \<open>
  \<open>getPlayersToPlay\<close> builds a \<open>Set\<close> from the latest update's \<open>toPlay\<close>; \<open>playMove\<close> reads its
  \<open>size\<close> (\<open>card\<close>) and \<open>has\<close> (membership) only.
\<close>

definition getPlayersToPlay :: "('o, 'm, 'pu, 'pr, 'g) Game \<Rightarrow> Player set" where
  "getPlayersToPlay s =
     (if length (updates s) \<noteq> 0
      then (case getLatestUpdate s of Inr u \<Rightarrow> set (toPlay u) | Inl e \<Rightarrow> {})
      else {})"

text \<open>
  \<open>if (update.toPlay.length == 0) { update.winners = this.getWinners(); }\<close>, the statement
  that \<open>start\<close> and \<open>playMove\<close> both run on an update before pushing it.
\<close>

definition attachWinners ::
  "('o, 'm, 'pu, 'pr, 'g) Subclass \<Rightarrow> 'g \<Rightarrow> ('pu, 'pr) Update \<Rightarrow> ('pu, 'pr) Update" where
  "attachWinners G g u =
     (if length (toPlay u) = 0 then u\<lparr> winners := Some (getWinners G g) \<rparr> else u)"

definition start ::
  "('o, 'm, 'pu, 'pr, 'g) Subclass \<Rightarrow> string \<Rightarrow> ('o, 'm, 'pu, 'pr, 'g) Game
     \<Rightarrow> (('o, 'm) error + unit) \<times> ('o, 'm, 'pu, 'pr, 'g) Game" where
  "start G seed s =
     (if length (updates s) > 0 then (Inl (Error ''A game can only be started once''), s)
      else
        (case initialize G (subFields s) seed of
           (update, g) \<Rightarrow>
             (Inr (), s\<lparr> subFields := g, updates := updates s @ [attachWinners G g update] \<rparr>)))"

definition playMove ::
  "('o, 'm, 'pu, 'pr, 'g) Subclass \<Rightarrow> 'm \<Rightarrow> Player \<Rightarrow> ('o, 'm, 'pu, 'pr, 'g) Game
     \<Rightarrow> (('o, 'm) error + bool) \<times> ('o, 'm, 'pu, 'pr, 'g) Game" where
  "playMove G move player s =
     (if length (updates s) = 0
      then (Inl (OutOfTurnError (JNumber player) (JString ''The game hasn't started yet'')
                   JUndefined), s)
      else
        let playersToPlayThisTurn = getPlayersToPlay s in
        if card playersToPlayThisTurn = 0
        then (Inl (OutOfTurnError (JNumber player) (JString ''The game is already over'')
                     JUndefined), s)
        else if player \<notin> playersToPlayThisTurn
        then (Inl (OutOfTurnError (JNumber player)
                     (JString ''No legal moves this turn for this player'') JUndefined), s)
        else if Map_has (pendingMoves s) player
        then (Inl (OutOfTurnError (JNumber player)
                     (JString ''Player has already played this turn'') JUndefined), s)
        else
          (case sanitizeMove G (subFields s) move of
             Inl e \<Rightarrow> (Inl e, s)
           | Inr sanitizedMove \<Rightarrow>
               (case assertMoveIsLegal G (subFields s) sanitizedMove player of
                  Inl e \<Rightarrow> (Inl e, s)
                | Inr _ \<Rightarrow>
                    let s1 = s\<lparr> pendingMoves := Map_set (pendingMoves s) player sanitizedMove \<rparr>
                    in
                    if card (getPlayersToPlay s1) = Map_size (pendingMoves s1)
                    then
                      (case processTurn G (subFields s1) (pendingMoves s1) of
                         (update, g) \<Rightarrow>
                           (Inr True,
                            s1\<lparr> subFields := g,
                                updates := updates s1 @ [attachWinners G g update],
                                pendingMoves := Map_new \<rparr>))
                    else (Inr False, s1))))"

text \<open>
  A caller's sequence of calls on one object. A call that throws leaves the object as it is
  at the throw, and the caller goes on with the next call.
\<close>

datatype 'm call = Start string | PlayMove 'm Player

fun step ::
  "('o, 'm, 'pu, 'pr, 'g) Subclass \<Rightarrow> 'm call \<Rightarrow> ('o, 'm, 'pu, 'pr, 'g) Game
     \<Rightarrow> ('o, 'm, 'pu, 'pr, 'g) Game" where
  "step G (Start seed) s = snd (start G seed s)"
| "step G (PlayMove move player) s = snd (playMove G move player s)"

fun run ::
  "('o, 'm, 'pu, 'pr, 'g) Subclass \<Rightarrow> 'm call list \<Rightarrow> ('o, 'm, 'pu, 'pr, 'g) Game
     \<Rightarrow> ('o, 'm, 'pu, 'pr, 'g) Game" where
  "run G [] s = s"
| "run G (c # cs) s = run G cs (step G c s)"



text \<open>
  The four conditions \<open>playMove\<close> tests before it calls \<open>sanitizeMove\<close>, all passed: the game has
  started, somebody is to play, \<open>player\<close> is to play, and \<open>player\<close> has no pending move.
\<close>

definition mayPlay :: "('o, 'm, 'pu, 'pr, 'g) Game \<Rightarrow> Player \<Rightarrow> bool" where
  "mayPlay s player =
     (length (updates s) \<noteq> 0 \<and> card (getPlayersToPlay s) \<noteq> 0 \<and>
      player \<in> getPlayersToPlay s \<and> \<not> Map_has (pendingMoves s) player)"

text \<open>
  What holds of the pending moves of every object made by the constructor, whatever is called
  on it: no player has two entries, and every player with an entry is to play this turn.
\<close>

definition pendingInv :: "('o, 'm, 'pu, 'pr, 'g) Game \<Rightarrow> bool" where
  "pendingInv s =
     (distinct (map fst (pendingMoves s)) \<and> fst ` set (pendingMoves s) \<subseteq> getPlayersToPlay s)"

subsection \<open>Option and move handling of the dice game (src/test/simple_game.ts)\<close>

text \<open>
  \<open>interface SimpleOptions { numPlayers: number; numPoints?: number }\<close>. The constructor takes
  its options at this type, so \<open>typeof options.numPlayers\<close> is \<open>"number"\<close> and the first test of
  \<open>sanitizeOptions\<close> is passed; \<open>Math.floor\<close> is \<open>floor\<close>.
\<close>

record SimpleOptions =
  numPlayers :: real
  numPoints :: "real option"

definition SimpleGame_sanitizeOptions ::
  "SimpleOptions \<Rightarrow> (SimpleOptions, 'm) error + SimpleOptions" where
  "SimpleGame_sanitizeOptions opts =
     (if numPlayers opts < 1
      then Inl (InvalidOptionsError opts ''number of players must be at least 1'')
      else Inr \<lparr> numPlayers = of_int \<lfloor>numPlayers opts\<rfloor>,
                 numPoints = Some (case numPoints opts of
                                     Some p \<Rightarrow> if p \<ge> 1 then p else 10
                                   | None \<Rightarrow> 10) \<rparr>)"

definition SimpleGame_numberOfPlayersForOptions :: "SimpleOptions \<Rightarrow> real" where
  "SimpleGame_numberOfPlayersForOptions opts = numPlayers opts"

text \<open>
  \<open>sanitizeMove(move: any)\<close> of the dice game reads \<open>move.guess\<close> and the truth of \<open>move.gamble\<close>:
  a raw move is a guess, any string, and an optional \<open>gamble\<close>, which counts when it is
  \<open>true\<close>. The sanitized move has a \<open>gamble\<close> field only then.
\<close>

record SimpleMove =
  guess :: string
  gamble :: "bool option"

definition SimpleGame_sanitizeMove :: "SimpleMove \<Rightarrow> ('o, SimpleMove) error + SimpleMove" where
  "SimpleGame_sanitizeMove move =
     (if guess move \<noteq> ''even'' \<and> guess move \<noteq> ''odd''
      then Inl (InvalidMoveError move ''move does not contain an even/odd guess'')
      else Inr \<lparr> guess = guess move,
                 gamble = (if gamble move = Some True then Some True else None) \<rparr>)"

subsection \<open>Subclasses as concrete inputs\<close>

text \<open>
  \<open>SumGame\<close>: players 0 and 1 both play every turn. A move is a number, of which the last
  digit counts; nobody may play 0 while the total is 0. The digits played are added to the
  total, and the game ends when the total reaches the target given as the option. The
  fields are the target and the total.
\<close>

definition SumGame :: "(int, int, int, unit, int \<times> int) Subclass" where
  "SumGame =
     \<lparr> numberOfPlayersForOptions = (\<lambda>opts. 2),
       sanitizeOptions = (\<lambda>opts.
         if opts < 1 then Inl (InvalidOptionsError opts ''the target must be at least 1'')
         else Inr opts),
       subclassFields = (\<lambda>opts. (opts, 0)),
       sanitizeMove = (\<lambda>g move.
         if move < 0 then Inl (InvalidMoveError move ''a move is a natural number'')
         else Inr (move mod 10)),
       assertMoveIsLegal = (\<lambda>g move player.
         if move = 0 \<and> snd g = 0 then Inl (IllegalMoveError move player ''the total is still 0'')
         else Inr ()),
       initialize = (\<lambda>g seed.
         (\<lparr> publicInfo = 0, toPlay = [0, 1], winners = None, privateInfo = None \<rparr>, g)),
       processTurn = (\<lambda>g moves.
         let total = snd g + sum_list (map snd moves) in
         (\<lparr> publicInfo = total, toPlay = (if fst g \<le> total then [] else [0, 1]),
            winners = None, privateInfo = None \<rparr>, (fst g, total))),
       getWinners = (\<lambda>g. if even (snd g) then [0] else [1]) \<rparr>"

text \<open>
  \<open>FirstGame\<close>: as \<open>SumGame\<close>, but \<open>processTurn\<close> publishes the first key of the map it is given
  (the first key that \<open>moves.forEach\<close> visits), or \<open>-1\<close> for an empty map, and ends the game.
\<close>

definition FirstGame :: "(int, int, int, unit, int \<times> int) Subclass" where
  "FirstGame =
     SumGame \<lparr> processTurn := (\<lambda>g moves.
       (\<lparr> publicInfo = (case moves of [] \<Rightarrow> - 1 | (player, move) # rest \<Rightarrow> player),
          toPlay = [], winners = None, privateInfo = None \<rparr>, g)) \<rparr>"

text \<open>
  \<open>TwiceGame\<close>: as \<open>SumGame\<close>, but \<open>initialize\<close> lists player 0 twice in \<open>toPlay\<close>.
\<close>

definition TwiceGame :: "(int, int, int, unit, int \<times> int) Subclass" where
  "TwiceGame =
     SumGame \<lparr> initialize := (\<lambda>g seed.
       (\<lparr> publicInfo = 0, toPlay = [0, 0], winners = None, privateInfo = None \<rparr>, g)) \<rparr>"

text \<open>
  The object \<open>new SumGame(3)\<close>, before \<open>start\<close>; \<open>new FirstGame(3)\<close> and \<open>new TwiceGame(3)\<close> have
  the same fields.
\<close>

definition SumGame_new :: "(int, int, int, unit, int \<times> int) Game" where
  "SumGame_new =
     \<lparr> pendingMoves = [], updates = [], options = 3, numberOfPlayers = 2, subFields = (3, 0) \<rparr>"

section \<open>Properties\<close>

subsection \<open>The steps of \<open>playMove\<close> and \<open>start\<close>\<close>

lemma getPlayersToPlay_last:
  "getPlayersToPlay s = (if updates s = [] then {} else set (toPlay (last (updates s))))"
  by (simp add: getPlayersToPlay_def getLatestUpdate_def last_conv_nth)

lemma playMove_unstarted:
  "updates s = [] \<Longrightarrow> playMove G move player s =
     (Inl (OutOfTurnError (JNumber player) (JString ''The game hasn't started yet'') JUndefined), s)"
  by (simp add: playMove_def)

lemma playMove_over:
  "updates s \<noteq> [] \<Longrightarrow> toPlay (last (updates s)) = [] \<Longrightarrow> playMove G move player s =
     (Inl (OutOfTurnError (JNumber player) (JString ''The game is already over'') JUndefined), s)"
  by (simp add: playMove_def getPlayersToPlay_last)

lemma playMove_not_toPlay:
  "updates s \<noteq> [] \<Longrightarrow> toPlay (last (updates s)) \<noteq> [] \<Longrightarrow>
   player \<notin> set (toPlay (last (updates s))) \<Longrightarrow> playMove G move player s =
     (Inl (OutOfTurnError (JNumber player) (JString ''No legal moves this turn for this player'')
        JUndefined), s)"
  by (simp add: playMove_def getPlayersToPlay_last)

lemma playMove_already:
  "updates s \<noteq> [] \<Longrightarrow> toPlay (last (updates s)) \<noteq> [] \<Longrightarrow>
   player \<in> set (toPlay (last (updates s))) \<Longrightarrow> player \<in> fst ` set (pendingMoves s) \<Longrightarrow>
   playMove G move player s =
     (Inl (OutOfTurnError (JNumber player) (JString ''Player has already played this turn'')
        JUndefined), s)"
  by (simp add: playMove_def getPlayersToPlay_last Map_has_def)

lemma playMove_fail_same:
  "playMove G move player s = (Inl e, s') \<Longrightarrow> s' = s"
  by (auto simp: playMove_def Let_def split: if_splits sum.splits prod.splits)

lemma start_started:
  "updates s \<noteq> [] \<Longrightarrow> start G seed s = (Inl (Error ''A game can only be started once''), s)"
  by (simp add: start_def)

lemma start_unstarted:
  "updates s = [] \<Longrightarrow> start G seed s =
     (Inr (), s\<lparr> subFields := snd (initialize G (subFields s) seed),
                 updates := [attachWinners G (snd (initialize G (subFields s) seed))
                               (fst (initialize G (subFields s) seed))] \<rparr>)"
  by (simp add: start_def split: prod.splits)

lemma Map_set_new: "k \<notin> fst ` set m \<Longrightarrow> Map_set m k v = m @ [(k, v)]"
  by (induction m) auto

lemma mayPlay_iff:
  "mayPlay s player =
     (updates s \<noteq> [] \<and> player \<in> set (toPlay (last (updates s))) \<and>
      player \<notin> fst ` set (pendingMoves s))"
  by (auto simp: mayPlay_def getPlayersToPlay_last Map_has_def)

lemma playMove_valid:
  assumes "mayPlay s player"
    and "sanitizeMove G (subFields s) move = Inr sm"
    and "assertMoveIsLegal G (subFields s) sm player = Inr ok"
  shows "playMove G move player s =
     (if card (set (toPlay (last (updates s)))) = length (pendingMoves s) + 1
      then (Inr True,
            s\<lparr> subFields := snd (processTurn G (subFields s) (pendingMoves s @ [(player, sm)])),
               updates := updates s @
                 [attachWinners G (snd (processTurn G (subFields s) (pendingMoves s @ [(player, sm)])))
                    (fst (processTurn G (subFields s) (pendingMoves s @ [(player, sm)])))],
               pendingMoves := [] \<rparr>)
      else (Inr False, s\<lparr> pendingMoves := pendingMoves s @ [(player, sm)] \<rparr>))"
proof -
  from assms(1) have st: "updates s \<noteq> []" and tp: "player \<in> set (toPlay (last (updates s)))"
    and np: "player \<notin> fst ` set (pendingMoves s)"
    by (simp_all add: mayPlay_iff)
  from tp have ne: "toPlay (last (updates s)) \<noteq> []" by auto
  have ms: "Map_set (pendingMoves s) player sm = pendingMoves s @ [(player, sm)]"
    using np by (rule Map_set_new)
  show ?thesis
    using st tp np ne assms(2,3)
    by (simp add: playMove_def getPlayersToPlay_last Map_has_def ms Map_size_def Map_new_def
        split: prod.splits)
qed

lemma playMove_Inr_valid:
  "playMove G move player s = (Inr b, s') \<Longrightarrow>
     mayPlay s player \<and> (\<exists>sm. sanitizeMove G (subFields s) move = Inr sm \<and>
       assertMoveIsLegal G (subFields s) sm player = Inr ())"
  by (auto simp: playMove_def mayPlay_def Let_def split: if_splits sum.splits prod.splits)

lemma playMove_not_mayPlay:
  assumes n: "\<not> mayPlay s player"
  shows "\<exists>reason. playMove G move player s =
       (Inl (OutOfTurnError (JNumber player) (JString reason) JUndefined), s)"
proof -
  consider "updates s = []"
    | "updates s \<noteq> []" "toPlay (last (updates s)) = []"
    | "updates s \<noteq> []" "toPlay (last (updates s)) \<noteq> []"
      "player \<notin> set (toPlay (last (updates s)))"
    | "updates s \<noteq> []" "toPlay (last (updates s)) \<noteq> []"
      "player \<in> set (toPlay (last (updates s)))" "player \<in> fst ` set (pendingMoves s)"
    using n by (auto simp: mayPlay_iff)
  then show ?thesis
  proof cases
    case 1
    then show ?thesis by (simp add: playMove_unstarted)
  next
    case 2
    then show ?thesis by (simp add: playMove_over)
  next
    case 3
    then show ?thesis by (simp add: playMove_not_toPlay)
  next
    case 4
    then show ?thesis by (simp add: playMove_already)
  qed
qed

lemma playMove_not_mayPlay_any:
  assumes n: "\<not> mayPlay s player"
  shows "playMove G' move' player s = playMove G move player s"
proof -
  consider "updates s = []"
    | "updates s \<noteq> []" "toPlay (last (updates s)) = []"
    | "updates s \<noteq> []" "toPlay (last (updates s)) \<noteq> []"
      "player \<notin> set (toPlay (last (updates s)))"
    | "updates s \<noteq> []" "toPlay (last (updates s)) \<noteq> []"
      "player \<in> set (toPlay (last (updates s)))" "player \<in> fst ` set (pendingMoves s)"
    using n by (auto simp: mayPlay_iff)
  then show ?thesis
  proof cases
    case 1
    then show ?thesis by (simp add: playMove_unstarted)
  next
    case 2
    then show ?thesis by (simp add: playMove_over)
  next
    case 3
    then show ?thesis by (simp add: playMove_not_toPlay)
  next
    case 4
    then show ?thesis by (simp add: playMove_already)
  qed
qed




subsection \<open>The pending moves of a constructed object\<close>

lemma all_submitted_iff:
  assumes "pendingInv s" and "mayPlay s player"
  shows "(card (set (toPlay (last (updates s)))) = length (pendingMoves s) + 1) =
         (insert player (fst ` set (pendingMoves s)) = set (toPlay (last (updates s))))"
proof -
  let ?K = "fst ` set (pendingMoves s)" and ?T = "set (toPlay (last (updates s)))"
  from assms(2) have st: "updates s \<noteq> []" and tp: "player \<in> ?T" and np: "player \<notin> ?K"
    by (simp_all add: mayPlay_iff)
  from assms(1) st have d: "distinct (map fst (pendingMoves s))" and sub: "?K \<subseteq> ?T"
    by (simp_all add: pendingInv_def getPlayersToPlay_last)
  have "card ?K = length (pendingMoves s)"
    using d distinct_card[of "map fst (pendingMoves s)"] by simp
  with np have c: "card (insert player ?K) = length (pendingMoves s) + 1" by simp
  have incl: "insert player ?K \<subseteq> ?T" using tp sub by simp
  show ?thesis
  proof
    assume "card ?T = length (pendingMoves s) + 1"
    with c have "card ?T \<le> card (insert player ?K)" by simp
    with incl show "insert player ?K = ?T" by (simp add: card_seteq)
  next
    assume "insert player ?K = ?T"
    with c show "card ?T = length (pendingMoves s) + 1" by simp
  qed
qed

lemma pendingInv_new: "Game_new G opts = Inr s \<Longrightarrow> pendingInv s \<and> updates s = []"
  by (auto simp: Game_new_def pendingInv_def Map_new_def split: sum.splits)

lemma pendingInv_start: "pendingInv s \<Longrightarrow> pendingInv (snd (start G seed s))"
proof (cases "updates s = []")
  case True
  assume "pendingInv s"
  with True have "pendingMoves s = []" by (simp add: pendingInv_def getPlayersToPlay_last)
  with True show ?thesis by (simp add: start_unstarted pendingInv_def)
next
  case False
  assume "pendingInv s"
  with False show ?thesis by (simp add: start_started)
qed

lemma pendingInv_playMove:
  assumes "pendingInv s"
  shows "pendingInv (snd (playMove G move player s))"
proof (cases "fst (playMove G move player s)")
  case (Inl e)
  then have "playMove G move player s = (Inl e, snd (playMove G move player s))"
    by (metis prod.collapse)
  then have "snd (playMove G move player s) = s" by (rule playMove_fail_same)
  with assms show ?thesis by simp
next
  case (Inr b)
  then have ok: "mayPlay s player \<and> (\<exists>sm. sanitizeMove G (subFields s) move = Inr sm \<and>
      assertMoveIsLegal G (subFields s) sm player = Inr ())"
    by (auto simp: playMove_def mayPlay_def Let_def split: if_splits sum.splits prod.splits)
  then obtain sm where mp: "mayPlay s player" and sa: "sanitizeMove G (subFields s) move = Inr sm"
    and le: "assertMoveIsLegal G (subFields s) sm player = Inr ()" by blast
  from mp have st: "updates s \<noteq> []" and tp: "player \<in> set (toPlay (last (updates s)))"
    and np: "player \<notin> fst ` set (pendingMoves s)"
    by (simp_all add: mayPlay_iff)
  from assms st have d: "distinct (map fst (pendingMoves s))"
    and sub: "fst ` set (pendingMoves s) \<subseteq> set (toPlay (last (updates s)))"
    by (simp_all add: pendingInv_def getPlayersToPlay_last)
  show ?thesis
    using st tp np d sub
    by (auto simp: playMove_valid[OF mp sa le] pendingInv_def getPlayersToPlay_last)
qed

lemma pendingInv_run: "pendingInv s \<Longrightarrow> pendingInv (run G calls s)"
proof (induction calls arbitrary: s)
  case Nil
  then show ?case by simp
next
  case (Cons c cs)
  have "pendingInv (step G c s)"
    using Cons.prems by (cases c) (simp_all add: pendingInv_start pendingInv_playMove)
  then show ?case by (simp add: Cons.IH)
qed

lemma reachable_pendingInv:
  "Game_new G opts = Inr s0 \<Longrightarrow> pendingInv (run G calls s0)"
  by (simp add: pendingInv_new pendingInv_run)

subsection \<open>Sequences of calls\<close>








subsection \<open>The concrete inputs, evaluated\<close>

lemmas SumGame_eval =
  start_def playMove_def SumGame_def FirstGame_def SumGame_new_def Let_def
  getPlayersToPlay_def getLatestUpdate_def getAllUpdates_def Map_has_def Map_size_def Map_new_def
  attachWinners_def Game_new_def mayPlay_def

lemmas TwiceGame_eval = TwiceGame_def SumGame_eval

lemma SumGame_new_eq: "Game_new SumGame 3 = Inr SumGame_new"
  by (simp add: SumGame_eval)

lemma SumGame_run1:
  "run SumGame [Start ''seed''] SumGame_new =
     \<lparr> pendingMoves = [],
       updates = [\<lparr> publicInfo = 0, toPlay = [0, 1], winners = None, privateInfo = None \<rparr>],
       options = 3, numberOfPlayers = 2, subFields = (3, 0) \<rparr>"
  by (simp add: SumGame_eval)



lemma TwiceGame_run1:
  "run TwiceGame [Start ''seed''] SumGame_new =
     \<lparr> pendingMoves = [],
       updates = [\<lparr> publicInfo = 0, toPlay = [0, 0], winners = None, privateInfo = None \<rparr>],
       options = 3, numberOfPlayers = 2, subFields = (3, 0) \<rparr>"
  by (simp add: TwiceGame_eval)

subsection \<open>Resolving a turn\<close>

text \<open>
  C1. Take an object made by the constructor, after any calls, whose history is not empty
  and whose latest \<open>toPlay\<close> is not empty, and a call of \<open>playMove\<close> that passes all checks:
  \<open>player\<close> is to play and has no pending move, \<open>sanitizeMove\<close> returns \<open>sm\<close>, and
  \<open>assertMoveIsLegal\<close> accepts \<open>sm\<close>. The pending moves with \<open>(player, sm)\<close> added are what
  \<open>processTurn\<close> is given. If the players that have now submitted are exactly those of
  \<open>toPlay\<close>, the call returns \<open>true\<close>, the update of \<open>processTurn\<close> (with its winners when its
  \<open>toPlay\<close> is empty) is the one update appended, and no move is pending. Otherwise the call
  returns \<open>false\<close>, the move is pending, and the history is as before.
\<close>

theorem playMove_resolves_when_all_submitted:
  assumes "Game_new G opts = Inr s0" and "s = run G calls s0"
    and "updates s \<noteq> []" and "toPlay (last (updates s)) \<noteq> []"
    and "player \<in> set (toPlay (last (updates s)))"
    and "player \<notin> fst ` set (pendingMoves s)"
    and "sanitizeMove G (subFields s) move = Inr sm"
    and "assertMoveIsLegal G (subFields s) sm player = Inr ()"
    and "processTurn G (subFields s) (pendingMoves s @ [(player, sm)]) = (u, g)"
  shows "playMove G move player s =
    (if fst ` set (pendingMoves s @ [(player, sm)]) = set (toPlay (last (updates s)))
     then (Inr True,
           s\<lparr> subFields := g, updates := updates s @ [attachWinners G g u],
              pendingMoves := [] \<rparr>)
     else (Inr False, s\<lparr> pendingMoves := pendingMoves s @ [(player, sm)] \<rparr>))"
proof -
  have inv: "pendingInv s" using assms(1,2) by (simp add: reachable_pendingInv)
  have mp: "mayPlay s player" using assms(3,5,6) by (simp add: mayPlay_iff)
  have "(fst ` set (pendingMoves s @ [(player, sm)]) = set (toPlay (last (updates s)))) =
        (card (set (toPlay (last (updates s)))) = length (pendingMoves s) + 1)"
    using all_submitted_iff [OF inv mp] by simp
  then show ?thesis
    using playMove_valid [OF mp assms(7,8)] assms(9) by simp
qed

theorem playMove_resolves_when_all_submitted_witness:
  "playMove SumGame 5 0 (run SumGame [Start ''seed''] SumGame_new) =
     (Inr False, (run SumGame [Start ''seed''] SumGame_new) \<lparr> pendingMoves := [(0, 5)] \<rparr>) \<and>
   playMove SumGame 17 1 (run SumGame [Start ''seed'', PlayMove 5 0] SumGame_new) =
     (Inr True,
      (run SumGame [Start ''seed'', PlayMove 5 0] SumGame_new)
        \<lparr> subFields := (3, 12),
          updates := [\<lparr> publicInfo = 0, toPlay = [0, 1], winners = None, privateInfo = None \<rparr>,
                      \<lparr> publicInfo = 12, toPlay = [], winners = Some [0], privateInfo = None \<rparr>],
          pendingMoves := [] \<rparr>)"
proof -
  let ?s1 = "run SumGame [Start ''seed''] SumGame_new"
  let ?s2 = "run SumGame [Start ''seed'', PlayMove 5 0] SumGame_new"
  have "playMove SumGame 5 0 ?s1 = (Inr False, ?s1 \<lparr> pendingMoves := [(0, 5)] \<rparr>)"
    using playMove_resolves_when_all_submitted
      [OF SumGame_new_eq, of ?s1 "[Start ''seed'']" 0 5 5
         "\<lparr> publicInfo = 5, toPlay = [], winners = None, privateInfo = None \<rparr>" "(3, 5)"]
    by (simp add: SumGame_eval)
  moreover have "playMove SumGame 17 1 ?s2 =
     (Inr True, ?s2 \<lparr> subFields := (3, 12),
          updates := [\<lparr> publicInfo = 0, toPlay = [0, 1], winners = None, privateInfo = None \<rparr>,
                      \<lparr> publicInfo = 12, toPlay = [], winners = Some [0], privateInfo = None \<rparr>],
          pendingMoves := [] \<rparr>)"
    using playMove_resolves_when_all_submitted
      [OF SumGame_new_eq, of ?s2 "[Start ''seed'', PlayMove 5 0]" 1 17 7
         "\<lparr> publicInfo = 12, toPlay = [], winners = None, privateInfo = None \<rparr>" "(3, 12)"]
    by (simp add: SumGame_eval)
  ultimately show ?thesis by simp
qed

subsection \<open>The order of the checks\<close>



subsection \<open>Failing calls\<close>

text \<open>
  C3. A call of \<open>playMove\<close> that throws leaves the object as it was, pending moves and history
  included. This covers the three ways it throws: an \<open>OutOfTurnError\<close> when one of the four
  first conditions fails, and otherwise the error of \<open>sanitizeMove\<close> or the error of
  \<open>assertMoveIsLegal\<close>, passed on as thrown. When the player was allowed to play, a later
  call by the same player with a move that is accepted by both methods returns as it would
  have without the failed call: with \<open>false\<close> and the sanitized move added to the pending
  moves, or with \<open>true\<close>, one more update and no pending moves.
\<close>

theorem failed_playMove_changes_nothing:
  "(playMove G move player s = (Inl e, s') \<longrightarrow>
      s' = s \<and> pendingMoves s' = pendingMoves s \<and> updates s' = updates s) \<and>
   (\<not> mayPlay s player \<longrightarrow>
      (\<exists>e. is_OutOfTurnError e \<and> playMove G move player s = (Inl e, s))) \<and>
   (mayPlay s player \<and> sanitizeMove G (subFields s) move = Inl e \<longrightarrow>
      playMove G move player s = (Inl e, s)) \<and>
   (mayPlay s player \<and> sanitizeMove G (subFields s) move = Inr sm \<and>
    assertMoveIsLegal G (subFields s) sm player = Inl e \<longrightarrow>
      playMove G move player s = (Inl e, s)) \<and>
   (playMove G move player s = (Inl e, s') \<and> mayPlay s player \<and>
    sanitizeMove G (subFields s) move2 = Inr sm2 \<and>
    assertMoveIsLegal G (subFields s) sm2 player = Inr () \<longrightarrow>
      playMove G move2 player s' = playMove G move2 player s \<and>
      (\<exists>b s''. playMove G move2 player s' = (Inr b, s'') \<and>
         (if b then pendingMoves s'' = [] \<and> length (updates s'') = length (updates s) + 1
          else pendingMoves s'' = pendingMoves s @ [(player, sm2)] \<and> updates s'' = updates s)))"
proof (intro conjI impI)
  assume "playMove G move player s = (Inl e, s')"
  then have "s' = s" by (rule playMove_fail_same)
  then show "s' = s" "pendingMoves s' = pendingMoves s" "updates s' = updates s" by simp_all
next
  assume n: "\<not> mayPlay s player"
  from playMove_not_mayPlay [OF n, of G move]
  show "\<exists>e. is_OutOfTurnError e \<and> playMove G move player s = (Inl e, s)" by auto
next
  assume "mayPlay s player \<and> sanitizeMove G (subFields s) move = Inl e"
  then show "playMove G move player s = (Inl e, s)"
    by (simp add: playMove_def mayPlay_def)
next
  assume "mayPlay s player \<and> sanitizeMove G (subFields s) move = Inr sm \<and>
    assertMoveIsLegal G (subFields s) sm player = Inl e"
  then show "playMove G move player s = (Inl e, s)"
    by (simp add: playMove_def mayPlay_def)
next
  assume a: "playMove G move player s = (Inl e, s') \<and> mayPlay s player \<and>
    sanitizeMove G (subFields s) move2 = Inr sm2 \<and>
    assertMoveIsLegal G (subFields s) sm2 player = Inr ()"
  then have same: "s' = s" by (blast dest: playMove_fail_same)
  then show "playMove G move2 player s' = playMove G move2 player s" by simp
  from a have mp: "mayPlay s player" and sa: "sanitizeMove G (subFields s) move2 = Inr sm2"
    and le: "assertMoveIsLegal G (subFields s) sm2 player = Inr ()" by simp_all
  show "\<exists>b s''. playMove G move2 player s' = (Inr b, s'') \<and>
         (if b then pendingMoves s'' = [] \<and> length (updates s'') = length (updates s) + 1
          else pendingMoves s'' = pendingMoves s @ [(player, sm2)] \<and> updates s'' = updates s)"
    unfolding same playMove_valid[OF mp sa le] by auto
qed

theorem failed_playMove_changes_nothing_witness:
  "playMove SumGame (- 1) 0 (run SumGame [Start ''seed''] SumGame_new) =
     (Inl (InvalidMoveError (- 1) ''a move is a natural number''),
      run SumGame [Start ''seed''] SumGame_new) \<and>
   playMove SumGame 10 0 (run SumGame [Start ''seed''] SumGame_new) =
     (Inl (IllegalMoveError 0 0 ''the total is still 0''),
      run SumGame [Start ''seed''] SumGame_new) \<and>
   (\<exists>e. is_OutOfTurnError e \<and>
      playMove SumGame 5 2 (run SumGame [Start ''seed''] SumGame_new) =
        (Inl e, run SumGame [Start ''seed''] SumGame_new)) \<and>
   playMove SumGame 5 0 (run SumGame [Start ''seed''] SumGame_new) =
     (Inr False, (run SumGame [Start ''seed''] SumGame_new) \<lparr> pendingMoves := [(0, 5)] \<rparr>)"
proof -
  let ?s = "run SumGame [Start ''seed''] SumGame_new"
  have f: "playMove SumGame (- 1) 0 ?s =
      (Inl (InvalidMoveError (- 1) ''a move is a natural number''), ?s)"
    by (simp add: SumGame_eval)
  have m: "mayPlay ?s 0" by (simp add: SumGame_eval)
  have n: "\<not> mayPlay ?s 2" by (simp add: SumGame_eval)
  have sa: "sanitizeMove SumGame (subFields ?s) (- 1) =
      Inl (InvalidMoveError (- 1) ''a move is a natural number'')"
    by (simp add: SumGame_eval)
  have sb: "sanitizeMove SumGame (subFields ?s) 10 = Inr 0" by (simp add: SumGame_eval)
  have lb: "assertMoveIsLegal SumGame (subFields ?s) 0 0 =
      Inl (IllegalMoveError 0 0 ''the total is still 0'')"
    by (simp add: SumGame_eval)
  have s2: "sanitizeMove SumGame (subFields ?s) 5 = Inr 5" by (simp add: SumGame_eval)
  have l2: "assertMoveIsLegal SumGame (subFields ?s) 5 0 = Inr ()" by (simp add: SumGame_eval)
  have r: "playMove SumGame 5 0 ?s = (Inr False, ?s \<lparr> pendingMoves := [(0, 5)] \<rparr>)"
    by (simp add: SumGame_eval)
  from failed_playMove_changes_nothing
    [of SumGame "- 1" 0 ?s "InvalidMoveError (- 1) ''a move is a natural number''" ?s 0 5 5]
    failed_playMove_changes_nothing
    [of SumGame 10 0 ?s "IllegalMoveError 0 0 ''the total is still 0''" ?s 0 5 5]
    failed_playMove_changes_nothing [of SumGame 5 2 ?s]
  show ?thesis using f m n sa sb lb s2 l2 r by simp
qed

text \<open>
  The dice game's \<open>sanitizeMove\<close> rejects the move \<open>{guess: "neither"}\<close>. So, in every subclass
  that sanitizes moves as the dice game does, that move of a player who may play throws the
  \<open>InvalidMoveError\<close> and leaves the object as it was, and a following \<open>{guess: "even"}\<close> of
  the same player, if legal, is accepted.
\<close>

lemma SimpleGame_neither_then_even:
  assumes "sanitizeMove G = (\<lambda>g. SimpleGame_sanitizeMove)" and "mayPlay s player"
    and "assertMoveIsLegal G (subFields s) \<lparr> guess = ''even'', gamble = None \<rparr> player = Inr ()"
  shows "playMove G \<lparr> guess = ''neither'', gamble = None \<rparr> player s =
      (Inl (InvalidMoveError \<lparr> guess = ''neither'', gamble = None \<rparr>
              ''move does not contain an even/odd guess''), s)"
    and "\<exists>b s'. playMove G \<lparr> guess = ''even'', gamble = None \<rparr> player
                   (snd (playMove G \<lparr> guess = ''neither'', gamble = None \<rparr> player s)) =
                 (Inr b, s')"
proof -
  have bad: "sanitizeMove G (subFields s) \<lparr> guess = ''neither'', gamble = None \<rparr> =
      Inl (InvalidMoveError \<lparr> guess = ''neither'', gamble = None \<rparr>
             ''move does not contain an even/odd guess'')"
    by (simp add: assms(1) SimpleGame_sanitizeMove_def)
  have good: "sanitizeMove G (subFields s) \<lparr> guess = ''even'', gamble = None \<rparr> =
      Inr \<lparr> guess = ''even'', gamble = None \<rparr>"
    by (simp add: assms(1) SimpleGame_sanitizeMove_def)
  show 1: "playMove G \<lparr> guess = ''neither'', gamble = None \<rparr> player s =
      (Inl (InvalidMoveError \<lparr> guess = ''neither'', gamble = None \<rparr>
              ''move does not contain an even/odd guess''), s)"
    using assms(2) bad by (simp add: playMove_def mayPlay_def)
  show "\<exists>b s'. playMove G \<lparr> guess = ''even'', gamble = None \<rparr> player
                   (snd (playMove G \<lparr> guess = ''neither'', gamble = None \<rparr> player s)) =
                 (Inr b, s')"
    unfolding 1 using playMove_valid [OF assms(2) good assms(3)] by auto
qed

subsection \<open>Life cycle\<close>

text \<open>
  The claim C4 says that \<open>getAllUpdates\<close> fails before \<open>start\<close>. It does not: on the object the
  constructor returns, whose history is empty, it returns that empty history.
\<close>

theorem getAllUpdates_before_start_counterexample:
  "Game_new SumGame 3 = Inr SumGame_new \<and> updates SumGame_new = [] \<and>
   getAllUpdates SumGame_new = []"
  by (simp add: SumGame_eval)

text \<open>
  C4, as amended. \<open>start\<close> on a game whose history is not empty throws the plain \<open>Error\<close> "A game
  can only be started once" (the specification's LifecycleError) and leaves the object as it
  is, so nothing is appended. Before \<open>start\<close>, \<open>getLatestUpdate\<close> throws the plain \<open>Error\<close>
  "Game hasn't started yet", and \<open>getAllUpdates\<close> returns the empty history.
\<close>

theorem start_once_latest_guarded:
  "(updates s \<noteq> [] \<longrightarrow> start G seed s = (Inl (Error ''A game can only be started once''), s)) \<and>
   (updates s = [] \<longrightarrow>
      getLatestUpdate s = Inl (Error ''Game hasn't started yet'') \<and> getAllUpdates s = [])"
  by (simp add: start_started getLatestUpdate_def getAllUpdates_def)

theorem start_once_latest_guarded_witness:
  "start SumGame ''again'' (run SumGame [Start ''seed''] SumGame_new) =
     (Inl (Error ''A game can only be started once''), run SumGame [Start ''seed''] SumGame_new) \<and>
   getLatestUpdate SumGame_new = Inl (Error ''Game hasn't started yet'') \<and>
   getAllUpdates SumGame_new = []"
  using start_once_latest_guarded [of "run SumGame [Start ''seed''] SumGame_new" SumGame "''again''"]
    start_once_latest_guarded [of SumGame_new]
  by (simp add: SumGame_eval)

subsection \<open>The history\<close>



subsection \<open>Winners\<close>

text \<open>
  C6. The update that \<open>start\<close> appends is the one \<open>initialize\<close> returned, and the update that a
  call of \<open>playMove\<close> returning \<open>true\<close> appends is the one \<open>processTurn\<close> returned for the
  pending moves with the new move; in both, the field \<open>winners\<close> is set to what \<open>getWinners\<close>
  returns (on the fields as the method left them) when \<open>toPlay\<close> is empty, and the update is
  appended as it was returned when \<open>toPlay\<close> is not empty. No other call appends anything.
\<close>

theorem winners_attached_iff_toPlay_empty:
  "(updates s = [] \<and> initialize G (subFields s) seed = (u, g) \<longrightarrow>
      updates (snd (start G seed s)) =
        [if toPlay u = [] then u\<lparr> winners := Some (getWinners G g) \<rparr> else u]) \<and>
   (updates s \<noteq> [] \<longrightarrow> updates (snd (start G seed s)) = updates s) \<and>
   (playMove G move player s = (Inr True, s') \<longrightarrow>
      (\<exists>sm u g. sanitizeMove G (subFields s) move = Inr sm \<and>
         processTurn G (subFields s) (pendingMoves s @ [(player, sm)]) = (u, g) \<and>
         updates s' = updates s @
           [if toPlay u = [] then u\<lparr> winners := Some (getWinners G g) \<rparr> else u])) \<and>
   (playMove G move player s = (r, s') \<and> r \<noteq> Inr True \<longrightarrow> updates s' = updates s)"
proof (intro conjI impI)
  assume "updates s = [] \<and> initialize G (subFields s) seed = (u, g)"
  then show "updates (snd (start G seed s)) =
        [if toPlay u = [] then u\<lparr> winners := Some (getWinners G g) \<rparr> else u]"
    by (simp add: start_unstarted attachWinners_def)
next
  assume "updates s \<noteq> []"
  then show "updates (snd (start G seed s)) = updates s" by (simp add: start_started)
next
  assume a: "playMove G move player s = (Inr True, s')"
  from playMove_Inr_valid [OF a] obtain sm where mp: "mayPlay s player"
    and sa: "sanitizeMove G (subFields s) move = Inr sm"
    and le: "assertMoveIsLegal G (subFields s) sm player = Inr ()" by blast
  obtain u g where pt: "processTurn G (subFields s) (pendingMoves s @ [(player, sm)]) = (u, g)"
    by (cases "processTurn G (subFields s) (pendingMoves s @ [(player, sm)])")
  from a have "updates s' = updates s @
           [if toPlay u = [] then u\<lparr> winners := Some (getWinners G g) \<rparr> else u]"
    unfolding playMove_valid [OF mp sa le]
    by (auto simp: pt attachWinners_def split: if_splits)
  with sa pt show "\<exists>sm u g. sanitizeMove G (subFields s) move = Inr sm \<and>
         processTurn G (subFields s) (pendingMoves s @ [(player, sm)]) = (u, g) \<and>
         updates s' = updates s @
           [if toPlay u = [] then u\<lparr> winners := Some (getWinners G g) \<rparr> else u]"
    by blast
next
  assume a: "playMove G move player s = (r, s') \<and> r \<noteq> Inr True"
  show "updates s' = updates s"
  proof (cases r)
    case (Inl e)
    with a have "s' = s" by (simp add: playMove_fail_same)
    then show ?thesis by simp
  next
    case (Inr b)
    with a have p: "playMove G move player s = (Inr False, s')" by simp
    from playMove_Inr_valid [OF p] obtain sm where mp: "mayPlay s player"
      and sa: "sanitizeMove G (subFields s) move = Inr sm"
      and le: "assertMoveIsLegal G (subFields s) sm player = Inr ()" by blast
    from p show ?thesis
      unfolding playMove_valid [OF mp sa le] by (auto split: if_splits)
  qed
qed

theorem winners_attached_iff_toPlay_empty_witness:
  "updates (snd (start SumGame ''seed'' SumGame_new)) =
     [\<lparr> publicInfo = 0, toPlay = [0, 1], winners = None, privateInfo = None \<rparr>] \<and>
   updates (snd (start SumGame ''again'' (run SumGame [Start ''seed''] SumGame_new))) =
     [\<lparr> publicInfo = 0, toPlay = [0, 1], winners = None, privateInfo = None \<rparr>] \<and>
   updates (snd (playMove SumGame 17 1 (run SumGame [Start ''seed'', PlayMove 5 0] SumGame_new))) =
     [\<lparr> publicInfo = 0, toPlay = [0, 1], winners = None, privateInfo = None \<rparr>,
      \<lparr> publicInfo = 12, toPlay = [], winners = Some [0], privateInfo = None \<rparr>] \<and>
   updates (snd (playMove SumGame 5 0 (run SumGame [Start ''seed''] SumGame_new))) =
     [\<lparr> publicInfo = 0, toPlay = [0, 1], winners = None, privateInfo = None \<rparr>]"
proof -
  let ?u0 = "\<lparr> publicInfo = 0::int, toPlay = [0, 1], winners = None,
                privateInfo = None :: unit list option \<rparr>"
  let ?s1 = "run SumGame [Start ''seed''] SumGame_new"
  let ?s2 = "run SumGame [Start ''seed'', PlayMove 5 0] SumGame_new"
  let ?s3 = "run SumGame [Start ''seed'', PlayMove 5 0, PlayMove 17 1] SumGame_new"
  have i: "updates SumGame_new = [] \<and>
      initialize SumGame (subFields SumGame_new) ''seed'' = (?u0, (3, 0))"
    by (simp add: SumGame_eval)
  have e1: "updates ?s1 = [?u0]" by (simp add: SumGame_eval)
  have p3: "playMove SumGame 17 1 ?s2 = (Inr True, ?s3)" by (simp add: SumGame_eval)
  have p2: "playMove SumGame 5 0 ?s1 = (Inr False, ?s2)" by (simp add: SumGame_eval)
  have e2: "updates ?s2 = [?u0] \<and> pendingMoves ?s2 = [(0, 5)] \<and> subFields ?s2 = (3, 0)"
    by (simp add: SumGame_eval)
  have sa: "sanitizeMove SumGame (3, 0) 17 = Inr 7" by (simp add: SumGame_eval)
  have pt: "processTurn SumGame (3, 0) [(0, 5), (1, 7)] =
      (\<lparr> publicInfo = 12, toPlay = [], winners = None, privateInfo = None \<rparr>, (3, 12))"
    by (simp add: SumGame_eval)
  have gw: "getWinners SumGame (3, 12) = [0]" by (simp add: SumGame_eval)
  from winners_attached_iff_toPlay_empty
      [where s = SumGame_new and G = SumGame and seed = "''seed''" and u = ?u0 and g = "(3, 0)"]
    winners_attached_iff_toPlay_empty [where s = ?s1 and G = SumGame and seed = "''again''"]
    winners_attached_iff_toPlay_empty
      [where s = ?s2 and G = SumGame and move = 17 and player = 1 and s' = ?s3]
    winners_attached_iff_toPlay_empty
      [where s = ?s1 and G = SumGame and move = 5 and player = 0 and s' = ?s2
         and r = "Inr False"]
  show ?thesis using i e1 p3 p2 e2 sa pt gw by auto
qed

subsection \<open>The order of submission\<close>

text \<open>
  C7 says that the update of a turn with two players is the same in either order of
  submission. The map that \<open>processTurn\<close> receives has its entries in the order of
  submission, and \<open>FirstGame\<close>, which publishes the first key, gives two different updates.
\<close>

theorem submission_order_counterexample:
  "Game_new FirstGame 3 = Inr SumGame_new \<and>
   toPlay (last (updates (run FirstGame [Start ''seed''] SumGame_new))) = [0, 1] \<and>
   last (updates (run FirstGame [Start ''seed'', PlayMove 5 0, PlayMove 7 1] SumGame_new)) =
     \<lparr> publicInfo = 0, toPlay = [], winners = Some [0], privateInfo = None \<rparr> \<and>
   last (updates (run FirstGame [Start ''seed'', PlayMove 7 1, PlayMove 5 0] SumGame_new)) =
     \<lparr> publicInfo = 1, toPlay = [], winners = Some [0], privateInfo = None \<rparr> \<and>
   updates (run FirstGame [Start ''seed'', PlayMove 5 0, PlayMove 7 1] SumGame_new) \<noteq>
   updates (run FirstGame [Start ''seed'', PlayMove 7 1, PlayMove 5 0] SumGame_new)"
  by (simp add: SumGame_eval)

text \<open>
  C7, as amended. With \<open>toPlay\<close> the set of two players \<open>a\<close> and \<open>b\<close>, no move pending and
  both moves accepted, in either order the first call returns \<open>false\<close> and appends nothing,
  and the second returns \<open>true\<close> and appends the update of \<open>processTurn\<close> for the map of both
  sanitized moves, its entries in the order of submission. Whenever \<open>processTurn\<close> returns
  the same for the two orders of the entries, the two orders of submission leave the same
  object, and so the same appended update.
\<close>

theorem two_submissions_either_order:
  assumes "updates s \<noteq> []" and "set (toPlay (last (updates s))) = {a, b}" and "a \<noteq> b"
    and "pendingMoves s = []"
    and "sanitizeMove G (subFields s) ma = Inr sa"
    and "assertMoveIsLegal G (subFields s) sa a = Inr ()"
    and "sanitizeMove G (subFields s) mb = Inr sb"
    and "assertMoveIsLegal G (subFields s) sb b = Inr ()"
  shows "playMove G ma a s = (Inr False, s\<lparr> pendingMoves := [(a, sa)] \<rparr>) \<and>
    playMove G mb b (s\<lparr> pendingMoves := [(a, sa)] \<rparr>) =
      (Inr True,
       s\<lparr> subFields := snd (processTurn G (subFields s) [(a, sa), (b, sb)]),
          updates := updates s @
            [attachWinners G (snd (processTurn G (subFields s) [(a, sa), (b, sb)]))
               (fst (processTurn G (subFields s) [(a, sa), (b, sb)]))],
          pendingMoves := [] \<rparr>) \<and>
    playMove G mb b s = (Inr False, s\<lparr> pendingMoves := [(b, sb)] \<rparr>) \<and>
    playMove G ma a (s\<lparr> pendingMoves := [(b, sb)] \<rparr>) =
      (Inr True,
       s\<lparr> subFields := snd (processTurn G (subFields s) [(b, sb), (a, sa)]),
          updates := updates s @
            [attachWinners G (snd (processTurn G (subFields s) [(b, sb), (a, sa)]))
               (fst (processTurn G (subFields s) [(b, sb), (a, sa)]))],
          pendingMoves := [] \<rparr>) \<and>
    (processTurn G (subFields s) [(a, sa), (b, sb)] =
     processTurn G (subFields s) [(b, sb), (a, sa)] \<longrightarrow>
       run G [PlayMove ma a, PlayMove mb b] s = run G [PlayMove mb b, PlayMove ma a] s)"
proof -
  have c: "card (set (toPlay (last (updates s)))) = 2" using assms(2,3) by simp
  have mpa: "mayPlay s a" and mpb: "mayPlay s b"
    using assms(1,2,4) by (simp_all add: mayPlay_iff)
  have mpa': "mayPlay (s\<lparr> pendingMoves := [(b, sb)] \<rparr>) a"
    and mpb': "mayPlay (s\<lparr> pendingMoves := [(a, sa)] \<rparr>) b"
    using assms(1,2,3) by (auto simp: mayPlay_iff)
  have 1: "playMove G ma a s = (Inr False, s\<lparr> pendingMoves := [(a, sa)] \<rparr>)"
    using playMove_valid [OF mpa assms(5,6)] c assms(4) by simp
  have 2: "playMove G mb b (s\<lparr> pendingMoves := [(a, sa)] \<rparr>) =
      (Inr True,
       s\<lparr> subFields := snd (processTurn G (subFields s) [(a, sa), (b, sb)]),
          updates := updates s @
            [attachWinners G (snd (processTurn G (subFields s) [(a, sa), (b, sb)]))
               (fst (processTurn G (subFields s) [(a, sa), (b, sb)]))],
          pendingMoves := [] \<rparr>)"
    using playMove_valid [OF mpb', of G mb sb] assms(7,8) c by simp
  have 3: "playMove G mb b s = (Inr False, s\<lparr> pendingMoves := [(b, sb)] \<rparr>)"
    using playMove_valid [OF mpb assms(7,8)] c assms(4) by simp
  have 4: "playMove G ma a (s\<lparr> pendingMoves := [(b, sb)] \<rparr>) =
      (Inr True,
       s\<lparr> subFields := snd (processTurn G (subFields s) [(b, sb), (a, sa)]),
          updates := updates s @
            [attachWinners G (snd (processTurn G (subFields s) [(b, sb), (a, sa)]))
               (fst (processTurn G (subFields s) [(b, sb), (a, sa)]))],
          pendingMoves := [] \<rparr>)"
    using playMove_valid [OF mpa', of G ma sa] assms(5,6) c by simp
  from 1 2 3 4 show ?thesis by simp
qed

theorem two_submissions_either_order_witness:
  "playMove SumGame 5 0 (run SumGame [Start ''seed''] SumGame_new) =
     (Inr False, (run SumGame [Start ''seed''] SumGame_new) \<lparr> pendingMoves := [(0, 5)] \<rparr>) \<and>
   playMove SumGame 17 1 (run SumGame [Start ''seed''] SumGame_new) =
     (Inr False, (run SumGame [Start ''seed''] SumGame_new) \<lparr> pendingMoves := [(1, 7)] \<rparr>) \<and>
   run SumGame [PlayMove 5 0, PlayMove 17 1] (run SumGame [Start ''seed''] SumGame_new) =
   run SumGame [PlayMove 17 1, PlayMove 5 0] (run SumGame [Start ''seed''] SumGame_new)"
proof -
  let ?s1 = "run SumGame [Start ''seed''] SumGame_new"
  have h: "updates ?s1 \<noteq> []" "set (toPlay (last (updates ?s1))) = {0, 1}" "(0::int) \<noteq> 1"
    "pendingMoves ?s1 = []"
    "sanitizeMove SumGame (subFields ?s1) 5 = Inr 5"
    "assertMoveIsLegal SumGame (subFields ?s1) 5 0 = Inr ()"
    "sanitizeMove SumGame (subFields ?s1) 17 = Inr 7"
    "assertMoveIsLegal SumGame (subFields ?s1) 7 1 = Inr ()"
    unfolding SumGame_run1 by (simp_all add: SumGame_def)
  have p: "processTurn SumGame (subFields ?s1) [(0, 5), (1, 7)] =
      processTurn SumGame (subFields ?s1) [(1, 7), (0, 5)]"
    unfolding SumGame_run1 by (simp add: SumGame_def)
  from two_submissions_either_order [OF h] p show ?thesis by blast
qed

subsection \<open>What an \<open>OutOfTurnError\<close> carries\<close>

text \<open>
  C8 says that every \<open>OutOfTurnError\<close> of \<open>playMove\<close> reports the submitted move and the player.
  \<open>playMove\<close> calls \<open>new OutOfTurnError(player, reason)\<close>: the class's \<open>move\<close> parameter
  receives the player's number, its \<open>player\<close> parameter the text of the reason, its \<open>reason\<close>
  parameter nothing. On each of the four paths the error is the same whatever move was
  submitted, so it does not report the move.
\<close>

theorem OutOfTurnError_carries_no_move:
  "\<not> mayPlay s player \<Longrightarrow>
     (\<exists>reason. playMove G move player s =
        (Inl (OutOfTurnError (JNumber player) (JString reason) JUndefined), s)) \<and>
     playMove G move' player s = playMove G move player s"
  using playMove_not_mayPlay [of s player G move]
    playMove_not_mayPlay_any [of s player G move' G move] by simp

theorem OutOfTurnError_carries_no_move_witness:
  "\<not> mayPlay SumGame_new 0 \<and>
   playMove SumGame 5 0 SumGame_new =
     (Inl (OutOfTurnError (JNumber 0) (JString ''The game hasn't started yet'') JUndefined),
      SumGame_new)"
proof -
  have n: "\<not> mayPlay SumGame_new 0" by (simp add: SumGame_eval)
  from OutOfTurnError_carries_no_move [OF n, of SumGame 5 6]
  show ?thesis using n by (simp add: SumGame_eval)
qed

subsection \<open>The constructor\<close>

text \<open>
  C9 says that \<open>numberOfPlayers\<close> is computed from the sanitized options. The constructor
  passes its parameter \<open>options\<close>, not \<open>this.options\<close>: with the dice game's two option methods
  and the options \<open>{numPlayers: 2.5}\<close>, the sanitized \<open>numPlayers\<close> is 2 and \<open>numberOfPlayers\<close> is
  2.5, for every subclass \<open>G\<close> that has these two methods.
\<close>

theorem numberOfPlayers_of_unsanitized_options:
  "Game_new (G \<lparr> sanitizeOptions := SimpleGame_sanitizeOptions,
                 numberOfPlayersForOptions := SimpleGame_numberOfPlayersForOptions \<rparr>)
     \<lparr> numPlayers = 5 / 2, numPoints = None \<rparr> =
   Inr \<lparr> pendingMoves = [], updates = [],
         options = \<lparr> numPlayers = 2, numPoints = Some 10 \<rparr>,
         numberOfPlayers = 5 / 2,
         subFields = subclassFields G \<lparr> numPlayers = 2, numPoints = Some 10 \<rparr> \<rparr>"
  by (simp add: Game_new_def SimpleGame_sanitizeOptions_def
      SimpleGame_numberOfPlayersForOptions_def Map_new_def)

subsection \<open>A player listed twice\<close>

text \<open>
  C10. \<open>toPlay\<close> is read as a set. With \<open>toPlay\<close> equal to \<open>[p, p]\<close> and no pending move, one
  accepted move of \<open>p\<close> resolves the turn. In general, on an object made by the constructor,
  an accepted move resolves the turn exactly when every player listed in \<open>toPlay\<close> is the
  submitter or has a pending move, and is kept pending otherwise; after it is kept
  pending, a further move of the same player is rejected with an \<open>OutOfTurnError\<close>.
\<close>

theorem duplicates_in_toPlay_count_once:
  "(updates s \<noteq> [] \<and> toPlay (last (updates s)) = [p, p] \<and> pendingMoves s = [] \<and>
    sanitizeMove G (subFields s) move = Inr sm \<and>
    assertMoveIsLegal G (subFields s) sm p = Inr () \<longrightarrow>
      fst (playMove G move p s) = Inr True \<and>
      length (updates (snd (playMove G move p s))) = length (updates s) + 1 \<and>
      pendingMoves (snd (playMove G move p s)) = []) \<and>
   (Game_new G opts = Inr s0 \<and> s = run G calls s0 \<and> updates s \<noteq> [] \<and>
    player \<in> set (toPlay (last (updates s))) \<and> player \<notin> fst ` set (pendingMoves s) \<and>
    sanitizeMove G (subFields s) move = Inr sm \<and>
    assertMoveIsLegal G (subFields s) sm player = Inr () \<longrightarrow>
      (fst (playMove G move player s) = Inr True) =
        (\<forall>q \<in> set (toPlay (last (updates s))). q = player \<or> q \<in> fst ` set (pendingMoves s)) \<and>
      (fst (playMove G move player s) = Inr False) =
        (\<not> (\<forall>q \<in> set (toPlay (last (updates s))).
              q = player \<or> q \<in> fst ` set (pendingMoves s))) \<and>
      (fst (playMove G move player s) = Inr False \<longrightarrow>
         (\<exists>e. is_OutOfTurnError e \<and>
            playMove G move2 player (snd (playMove G move player s)) =
              (Inl e, snd (playMove G move player s)))))"
proof (intro conjI impI)
  assume a: "updates s \<noteq> [] \<and> toPlay (last (updates s)) = [p, p] \<and> pendingMoves s = [] \<and>
    sanitizeMove G (subFields s) move = Inr sm \<and>
    assertMoveIsLegal G (subFields s) sm p = Inr ()"
  then have mp: "mayPlay s p" by (simp add: mayPlay_iff)
  from a have sa: "sanitizeMove G (subFields s) move = Inr sm"
    and le: "assertMoveIsLegal G (subFields s) sm p = Inr ()" by simp_all
  from a show "fst (playMove G move p s) = Inr True"
    "length (updates (snd (playMove G move p s))) = length (updates s) + 1"
    "pendingMoves (snd (playMove G move p s)) = []"
    unfolding playMove_valid [OF mp sa le] by simp_all
next
  assume a: "Game_new G opts = Inr s0 \<and> s = run G calls s0 \<and> updates s \<noteq> [] \<and>
    player \<in> set (toPlay (last (updates s))) \<and> player \<notin> fst ` set (pendingMoves s) \<and>
    sanitizeMove G (subFields s) move = Inr sm \<and>
    assertMoveIsLegal G (subFields s) sm player = Inr ()"
  then have inv: "pendingInv s" using reachable_pendingInv [of G opts s0 calls] by blast
  from a have st: "updates s \<noteq> []" and tp: "player \<in> set (toPlay (last (updates s)))"
    and np: "player \<notin> fst ` set (pendingMoves s)"
    and sa: "sanitizeMove G (subFields s) move = Inr sm"
    and le: "assertMoveIsLegal G (subFields s) sm player = Inr ()" by blast+
  from st tp np have mp: "mayPlay s player" by (simp add: mayPlay_iff)
  have "(insert player (fst ` set (pendingMoves s)) = set (toPlay (last (updates s)))) =
        (\<forall>q \<in> set (toPlay (last (updates s))). q = player \<or> q \<in> fst ` set (pendingMoves s))"
    using inv st tp by (auto simp: pendingInv_def getPlayersToPlay_last)
  then show "(fst (playMove G move player s) = Inr True) =
        (\<forall>q \<in> set (toPlay (last (updates s))). q = player \<or> q \<in> fst ` set (pendingMoves s))"
    and "(fst (playMove G move player s) = Inr False) =
        (\<not> (\<forall>q \<in> set (toPlay (last (updates s))).
              q = player \<or> q \<in> fst ` set (pendingMoves s)))"
    unfolding playMove_valid [OF mp sa le] all_submitted_iff [OF inv mp] by simp_all
  assume n: "fst (playMove G move player s) = Inr False"
  then have r: "playMove G move player s =
      (Inr False, s\<lparr> pendingMoves := pendingMoves s @ [(player, sm)] \<rparr>)"
    unfolding playMove_valid [OF mp sa le] by (simp split: if_splits)
  have "\<not> mayPlay (s\<lparr> pendingMoves := pendingMoves s @ [(player, sm)] \<rparr>) player"
    by (simp add: mayPlay_iff)
  from playMove_not_mayPlay [OF this, of G move2]
  show "\<exists>e. is_OutOfTurnError e \<and>
            playMove G move2 player (snd (playMove G move player s)) =
              (Inl e, snd (playMove G move player s))"
    unfolding r by auto
qed

theorem duplicates_in_toPlay_count_once_witness:
  "toPlay (last (updates (run TwiceGame [Start ''seed''] SumGame_new))) = [0, 0] \<and>
   fst (playMove TwiceGame 5 0 (run TwiceGame [Start ''seed''] SumGame_new)) = Inr True \<and>
   length (updates (snd (playMove TwiceGame 5 0 (run TwiceGame [Start ''seed''] SumGame_new)))) = 2 \<and>
   fst (playMove SumGame 5 0 (run SumGame [Start ''seed''] SumGame_new)) = Inr False \<and>
   (\<exists>e. is_OutOfTurnError e \<and>
      fst (playMove SumGame 6 0 (run SumGame [Start ''seed'', PlayMove 5 0] SumGame_new)) = Inl e)"
proof -
  let ?t1 = "run TwiceGame [Start ''seed''] SumGame_new"
  let ?s1 = "run SumGame [Start ''seed''] SumGame_new"
  have n: "Game_new SumGame 3 = Inr SumGame_new" by (rule SumGame_new_eq)
  have ht: "updates ?t1 \<noteq> [] \<and> toPlay (last (updates ?t1)) = [0, 0] \<and> pendingMoves ?t1 = [] \<and>
    sanitizeMove TwiceGame (subFields ?t1) 5 = Inr 5 \<and>
    assertMoveIsLegal TwiceGame (subFields ?t1) 5 0 = Inr ()"
    unfolding TwiceGame_run1 by (simp add: TwiceGame_def SumGame_def)
  have hs: "updates ?s1 \<noteq> [] \<and>
    0 \<in> set (toPlay (last (updates ?s1))) \<and> 0 \<notin> fst ` set (pendingMoves ?s1) \<and>
    sanitizeMove SumGame (subFields ?s1) 5 = Inr 5 \<and>
    assertMoveIsLegal SumGame (subFields ?s1) 5 0 = Inr ()"
    unfolding SumGame_run1 by (simp add: SumGame_def)
  from duplicates_in_toPlay_count_once
      [where s = ?t1 and G = TwiceGame and p = 0 and move = 5 and sm = 5,
        THEN conjunct1, rule_format, OF ht]
  have c1: "fst (playMove TwiceGame 5 0 ?t1) = Inr True \<and>
      length (updates (snd (playMove TwiceGame 5 0 ?t1))) = length (updates ?t1) + 1" by blast
  from duplicates_in_toPlay_count_once
      [where s = ?s1 and G = SumGame and opts = 3 and ?s0.0 = SumGame_new
         and calls = "[Start ''seed'']" and player = 0 and move = 5 and sm = 5 and ?move2.0 = 6,
        THEN conjunct2, rule_format] n hs
  have c2: "(fst (playMove SumGame 5 0 ?s1) = Inr False) =
        (\<not> (\<forall>q \<in> set (toPlay (last (updates ?s1))).
              q = 0 \<or> q \<in> fst ` set (pendingMoves ?s1))) \<and>
      (fst (playMove SumGame 5 0 ?s1) = Inr False \<longrightarrow>
         (\<exists>e. is_OutOfTurnError e \<and>
            playMove SumGame 6 0 (snd (playMove SumGame 5 0 ?s1)) =
              (Inl e, snd (playMove SumGame 5 0 ?s1))))" by blast
  have "\<not> (\<forall>q \<in> set (toPlay (last (updates ?s1))).
              q = 0 \<or> q \<in> fst ` set (pendingMoves ?s1))"
    unfolding SumGame_run1 by simp
  with c2 have f: "fst (playMove SumGame 5 0 ?s1) = Inr False" by blast
  with c2 have "\<exists>e. is_OutOfTurnError e \<and>
            playMove SumGame 6 0 (snd (playMove SumGame 5 0 ?s1)) =
              (Inl e, snd (playMove SumGame 5 0 ?s1))" by simp
  then have g: "\<exists>e. is_OutOfTurnError e \<and>
      fst (playMove SumGame 6 0 (run SumGame [Start ''seed'', PlayMove 5 0] SumGame_new)) = Inl e"
    by auto
  have l: "length (updates ?t1) = 1" "toPlay (last (updates ?t1)) = [0, 0]"
    unfolding TwiceGame_run1 by simp_all
  from c1 f g l show ?thesis by simp
qed

end
